theory Spec2Isabelle
  imports Complex_Main
begin

section \<open>Values and errors\<close>

text \<open>
  The program computes with NumPy arrays of IEEE binary64 numbers. The main model takes the
  samples as real numbers and computes in exact arithmetic, so its theorems are the algebra
  of the code. Where a property speaks of a result being exact, the same functions are also
  given with every operation rounded to binary64 (names ending in \<open>_b64\<close>), and evaluated
  on concrete inputs.

  A sample sequence is a \<open>real list\<close> (the measurements are finite numbers). The one
  non-number the metric functions can return is NaN, from \<open>np.mean\<close> of an empty array,
  which NumPy answers with a RuntimeWarning and no exception.
\<close>

datatype npfloat = NaN | Val real

datatype pyerror = KeyError string | ValueError | TypeError | IndexError

section \<open>signal\_utils.py\<close>

definition CT_FS_VOLTAGE :: real where
  "CT_FS_VOLTAGE = 333 / 1000"

text \<open>\<open>np.mean(a)\<close>: the sum over the count; NaN for the empty array.\<close>

definition np_mean :: "real list \<Rightarrow> npfloat" where
  "np_mean a = (if a = [] then NaN else Val (sum_list a / real (length a)))"

text \<open>
  \<open>signal - np.mean(signal)\<close>: the scalar is subtracted from every element. The mean is
  NaN only when there is no element to subtract it from, and the difference is then the
  empty array.
\<close>

definition remove_dc_bias :: "real list \<Rightarrow> real list" where
  "remove_dc_bias signal =
     (case np_mean signal of
        NaN \<Rightarrow> []
      | Val m \<Rightarrow> map (\<lambda>x. x - m) signal)"

text \<open>\<open>np.sqrt(np.mean(a ** 2))\<close>, NaN going through the square root.\<close>

definition sqrt_mean_square :: "real list \<Rightarrow> npfloat" where
  "sqrt_mean_square a =
     (case np_mean (map (\<lambda>x. x ^ 2) a) of
        NaN \<Rightarrow> NaN
      | Val m \<Rightarrow> Val (sqrt m))"

definition calc_rms :: "real list \<Rightarrow> npfloat" where
  "calc_rms signal = (let ac = remove_dc_bias signal in sqrt_mean_square ac)"

text \<open>
  \<open>np.percentile(a, q)\<close> with NumPy's default method, "linear": \<open>q / 100\<close> outside
  \<open>[0, 1]\<close> raises ValueError before anything else; the value is taken at the virtual index
  \<open>(n - 1) * q / 100\<close> of the sorted array, interpolating linearly between the two
  neighbouring order statistics, and at the last element once the virtual index reaches
  \<open>n - 1\<close>. On an empty array NumPy (1.22 and later) raises IndexError when it reads the
  last element of the partitioned array.
\<close>

definition lerp_sorted :: "real list \<Rightarrow> real \<Rightarrow> real" where
  "lerp_sorted xs v =
     (let n = length xs;
          i = nat \<lfloor>v\<rfloor>
      in if real (n - 1) \<le> v then xs ! (n - 1)
         else xs ! i + (xs ! (i + 1) - xs ! i) * (v - real i))"

definition np_percentile :: "real list \<Rightarrow> real \<Rightarrow> pyerror + real" where
  "np_percentile a q =
     (if q / 100 < 0 \<or> 1 < q / 100 then Inl ValueError
      else if a = [] then Inl IndexError
      else Inr (lerp_sorted (sort a) (real (length a - 1) * (q / 100))))"

definition calc_peak :: "real list \<Rightarrow> real \<Rightarrow> pyerror + real" where
  "calc_peak signal percentile =
     (let ac = remove_dc_bias signal
      in np_percentile (map abs ac) percentile)"

definition calc_peak_to_peak :: "real list \<Rightarrow> real \<Rightarrow> pyerror + real" where
  "calc_peak_to_peak signal percentile =
     (let ac = remove_dc_bias signal
      in case np_percentile ac percentile of
           Inl e \<Rightarrow> Inl e
         | Inr high \<Rightarrow>
             (case np_percentile ac (100 - percentile) of
                Inl e \<Rightarrow> Inl e
              | Inr low \<Rightarrow> Inr (high - low)))"

text \<open>The default of the \<open>percentile\<close> argument of both functions.\<close>

definition default_percentile :: real where
  "default_percentile = 995 / 10"

definition vrms_to_current :: "real \<Rightarrow> real \<Rightarrow> real" where
  "vrms_to_current vrms i_primary = vrms * i_primary / CT_FS_VOLTAGE"

section \<open>plot\_comparison.py: the reference waveform\<close>

text \<open>
  The descriptor \<open>params\<close> is a Python dict from key strings to values; the values the
  synthesizer reads are numbers and, under \<open>"type"\<close>, a string. \<open>params[k]\<close> raises
  KeyError on a missing key, and arithmetic on a string raises TypeError.
\<close>

datatype pyval = Str string | Num real

type_synonym params = "string \<rightharpoonup> pyval"

definition subscript :: "params \<Rightarrow> string \<Rightarrow> pyerror + pyval" where
  "subscript d k = (case d k of None \<Rightarrow> Inl (KeyError k) | Some v \<Rightarrow> Inr v)"

definition as_number :: "pyval \<Rightarrow> pyerror + real" where
  "as_number v = (case v of Num x \<Rightarrow> Inr x | Str _ \<Rightarrow> Inl TypeError)"

text \<open>Sequencing of statements that may raise: the first error ends the call.\<close>

definition and_then :: "pyerror + 'a \<Rightarrow> ('a \<Rightarrow> pyerror + 'b) \<Rightarrow> pyerror + 'b" where
  "and_then r k = (case r of Inl e \<Rightarrow> Inl e | Inr x \<Rightarrow> k x)"

text \<open>
  \<open>np.linspace(0, duration, n_points, endpoint=False)\<close>: \<open>n_points\<close> samples with step
  \<open>duration / n_points\<close>, starting at 0.
\<close>

definition linspace :: "real \<Rightarrow> nat \<Rightarrow> real list" where
  "linspace duration n_points =
     map (\<lambda>k. real k * (duration / real n_points)) [0..<n_points]"

text \<open>NumPy's \<open>%\<close> on floats is the floored remainder, with the sign of the divisor.\<close>

definition np_mod :: "real \<Rightarrow> real \<Rightarrow> real" where
  "np_mod x m = x - of_int \<lfloor>x / m\<rfloor> * m"

text \<open>
  Lines 74 to 101 of \<open>generate_reference\<close>: the wave before scaling, by family. \<open>f\<close> is
  \<open>params["freq_hz"]\<close>, read before the dispatch; the dimmer and the modulated sine read
  their own parameter first and compute with \<open>f\<close> after it.
\<close>

definition unscaled_wave :: "params \<Rightarrow> pyval \<Rightarrow> pyval \<Rightarrow> real list \<Rightarrow> pyerror + real list" where
  "unscaled_wave params wtype f t =
     (if wtype = Str ''sine'' then
        and_then (as_number f) (\<lambda>f.
        Inr (map (\<lambda>t. sin (2 * pi * f * t)) t))
      else if wtype = Str ''square'' then
        and_then (as_number f) (\<lambda>f.
        Inr (map (\<lambda>t. sgn (sin (2 * pi * f * t))) t))
      else if wtype = Str ''triangle'' then
        and_then (as_number f) (\<lambda>f.
        let phase = map (\<lambda>t. np_mod (f * t) 1) t
        in Inr (map (\<lambda>p. 4 * \<bar>p - 1 / 2\<bar> - 1) phase))
      else if wtype = Str ''dimmer'' then
        and_then (subscript params ''duty_pct'') (\<lambda>duty_pct.
        and_then (as_number duty_pct) (\<lambda>duty_pct.
        let firing_angle = pi * (1 - duty_pct / 100)
        in and_then (as_number f) (\<lambda>f.
           Inr (map (\<lambda>t. if firing_angle \<le> np_mod (2 * pi * f * t) pi
                          then sin (2 * pi * f * t) else 0) t))))
      else if wtype = Str ''sine_mod'' then
        and_then (subscript params ''mod_freq_hz'') (\<lambda>f_mod.
        and_then (as_number f) (\<lambda>f.
        and_then (as_number f_mod) (\<lambda>f_mod.
        Inr (map (\<lambda>t. sin (2 * pi * f * t) * (1 + cos (2 * pi * f_mod * t))) t))))
      else Inl ValueError)"

text \<open>
  Lines 103 to 106: \<open>rms_raw = np.sqrt(np.mean(wave ** 2))\<close>, without bias removal, and the
  scaling under \<open>if rms_raw > 0\<close>. A NaN compares false with everything, so the empty wave
  is left as it is; \<open>vrms\<close> is only used when the wave is scaled.
\<close>

definition scale_to_vrms :: "pyval \<Rightarrow> real list \<Rightarrow> pyerror + real list" where
  "scale_to_vrms vrms wave =
     (case sqrt_mean_square wave of
        NaN \<Rightarrow> Inr wave
      | Val rms_raw \<Rightarrow>
          if 0 < rms_raw then
            and_then (as_number vrms) (\<lambda>vrms.
            Inr (map (\<lambda>w. w * (vrms / rms_raw)) wave))
          else Inr wave)"

definition generate_reference :: "params \<Rightarrow> real \<Rightarrow> nat \<Rightarrow> pyerror + real list \<times> real list" where
  "generate_reference params duration n_points =
     (let t = linspace duration n_points
      in and_then (subscript params ''freq_hz'') (\<lambda>f.
         and_then (subscript params ''vrms_v'') (\<lambda>vrms.
         and_then (subscript params ''type'') (\<lambda>wtype.
         and_then (unscaled_wave params wtype f t) (\<lambda>wave.
         and_then (scale_to_vrms vrms wave) (\<lambda>wave.
         Inr (t, wave)))))))"

text \<open>
  The RMS the tool reports for the reference: \<open>main\<close> hands the wave that
  \<open>generate_reference\<close> returns to \<open>build_metrics_table\<close>, whose line 116 takes
  \<open>calc_rms\<close> of it.
\<close>

definition ref_rms :: "params \<Rightarrow> real \<Rightarrow> nat \<Rightarrow> pyerror + npfloat" where
  "ref_rms params duration n_points =
     and_then (generate_reference params duration n_points) (\<lambda>(t, ref_wave).
     Inr (calc_rms ref_wave))"

text \<open>The defaults of \<open>duration\<close> and \<open>n_points\<close>.\<close>

definition default_duration :: real where
  "default_duration = 1"

definition default_n_points :: nat where
  "default_n_points = 10000"

section \<open>Auxiliary notions\<close>

text \<open>The arithmetic mean of a non-empty list, as a plain number.\<close>

definition mean :: "real list \<Rightarrow> real" where
  "mean a = sum_list a / real (length a)"


section \<open>The same arithmetic in binary64\<close>

text \<open>
  IEEE 754 binary64 rounds the exact result of each operation to the nearest number with a
  53-bit significand, ties going to the even significand. \<open>binary64 x\<close> is that rounding
  of the real number \<open>x\<close>: with \<open>2 ^ e \<le> \<bar>x\<bar> < 2 ^ (e + 1)\<close> the representable
  numbers around \<open>x\<close> are the multiples of \<open>2 ^ (e - 52)\<close>. The exponent range is not
  modelled (no overflow, no subnormal numbers); the values below stay far inside it.
\<close>

definition round_half_even :: "real \<Rightarrow> int" where
  "round_half_even x =
     (let f = \<lfloor>x\<rfloor>; r = x - of_int f
      in if r < 1 / 2 then f
         else if 1 / 2 < r then f + 1
         else if even f then f else f + 1)"

definition binary64 :: "real \<Rightarrow> real" where
  "binary64 x =
     (if x = 0 then 0
      else let ulp = 2 powi (\<lfloor>log 2 \<bar>x\<bar>\<rfloor> - 52)
           in of_int (round_half_even (x / ulp)) * ulp)"

text \<open>
  \<open>vrms * i_primary / CT_FS_VOLTAGE\<close> on Python floats: the literal \<open>0.333\<close> is the
  binary64 number nearest to 333/1000, the product is rounded, then the quotient.
\<close>

definition vrms_to_current_b64 :: "real \<Rightarrow> real \<Rightarrow> real" where
  "vrms_to_current_b64 vrms i_primary =
     binary64 (binary64 (vrms * i_primary) / binary64 CT_FS_VOLTAGE)"

text \<open>
  \<open>np.mean\<close> adds the elements, rounding each partial sum, and divides by the count.
  The elements are added from left to right here. NumPy adds long arrays in blocks, which
  changes the roundings and not the exact sum; on the short sequences evaluated below
  (two elements, three equal elements, zeros) every order gives the same partial sums.
\<close>

definition sum_b64 :: "real list \<Rightarrow> real" where
  "sum_b64 a = foldl (\<lambda>acc x. binary64 (acc + x)) 0 a"

definition np_mean_b64 :: "real list \<Rightarrow> npfloat" where
  "np_mean_b64 a =
     (if a = [] then NaN else Val (binary64 (sum_b64 a / real (length a))))"

definition remove_dc_bias_b64 :: "real list \<Rightarrow> real list" where
  "remove_dc_bias_b64 signal =
     (case np_mean_b64 signal of
        NaN \<Rightarrow> []
      | Val m \<Rightarrow> map (\<lambda>x. binary64 (x - m)) signal)"

definition sqrt_mean_square_b64 :: "real list \<Rightarrow> npfloat" where
  "sqrt_mean_square_b64 a =
     (case np_mean_b64 (map (\<lambda>x. binary64 (x ^ 2)) a) of
        NaN \<Rightarrow> NaN
      | Val m \<Rightarrow> Val (binary64 (sqrt m)))"

definition calc_rms_b64 :: "real list \<Rightarrow> npfloat" where
  "calc_rms_b64 signal = (let ac = remove_dc_bias_b64 signal in sqrt_mean_square_b64 ac)"

section \<open>Bias removal and RMS in exact arithmetic\<close>

lemma np_mean_Val: "a \<noteq> [] \<Longrightarrow> np_mean a = Val (mean a)"
  by (simp add: np_mean_def mean_def)

lemma remove_dc_bias_Nil [simp]: "remove_dc_bias [] = []"
  by (simp add: remove_dc_bias_def np_mean_def)

lemma remove_dc_bias_eq: "remove_dc_bias s = map (\<lambda>x. x - mean s) s"
  by (cases "s = []") (simp_all add: remove_dc_bias_def np_mean_def mean_def)

lemma length_remove_dc_bias [simp]: "length (remove_dc_bias s) = length s"
  by (simp add: remove_dc_bias_eq)

lemma sum_list_add_const:
  fixes k :: real
  shows "sum_list (map (\<lambda>x. x + k) s) = sum_list s + real (length s) * k"
  by (induction s) (simp_all add: algebra_simps)

lemma mean_shift: "s \<noteq> [] \<Longrightarrow> mean (map (\<lambda>x. x + k) s) = mean s + k"
  by (simp add: mean_def sum_list_add_const add_divide_distrib)

lemma remove_dc_bias_shift:
  "s \<noteq> [] \<Longrightarrow> remove_dc_bias (map (\<lambda>x. x + k) s) = remove_dc_bias s"
  by (simp add: remove_dc_bias_eq mean_shift o_def)

lemma sum_list_scale:
  fixes c :: real
  shows "sum_list (map (\<lambda>x. x * c) w) = sum_list w * c"
  by (induction w) (simp_all add: algebra_simps)

lemma mean_scale: "mean (map (\<lambda>x. x * c) w) = mean w * c"
  by (simp add: mean_def sum_list_scale)

lemma remove_dc_bias_scale:
  "remove_dc_bias (map (\<lambda>x. x * c) w) = map (\<lambda>x. x * c) (remove_dc_bias w)"
  by (simp add: remove_dc_bias_eq mean_scale o_def algebra_simps)

lemma mean_zero_remove_dc_bias: "sum_list s = 0 \<Longrightarrow> remove_dc_bias s = s"
  by (simp add: remove_dc_bias_eq mean_def)

lemma remove_dc_bias_constant:
  assumes "c \<noteq> []" and "\<forall>y\<in>set c. y = x"
  shows "remove_dc_bias c = replicate (length c) 0"
proof -
  have c: "c = replicate (length c) x"
    using assms(2) by (simp add: replicate_length_same)
  have "mean c = x"
    using assms(1) by (subst c) (simp add: mean_def sum_list_replicate)
  then have "remove_dc_bias c = map (\<lambda>y. y - x) (replicate (length c) x)"
    using c by (simp add: remove_dc_bias_eq)
  then show ?thesis by (simp add: map_replicate_const)
qed

lemma sqrt_mean_square_Val:
  "a \<noteq> [] \<Longrightarrow> sqrt_mean_square a = Val (sqrt (mean (map (\<lambda>x. x ^ 2) a)))"
  by (simp add: sqrt_mean_square_def np_mean_def mean_def)

lemma sqrt_mean_square_Nil [simp]: "sqrt_mean_square [] = NaN"
  by (simp add: sqrt_mean_square_def np_mean_def)

lemma sqrt_mean_square_NaN_iff: "sqrt_mean_square a = NaN \<longleftrightarrow> a = []"
  by (cases "a = []") (simp_all add: sqrt_mean_square_Val)

lemma sum_list_nonneg_real:
  fixes xs :: "real list"
  shows "\<forall>x\<in>set xs. 0 \<le> x \<Longrightarrow> 0 \<le> sum_list xs"
  by (induction xs) simp_all

lemma member_le_sum_list_real:
  fixes xs :: "real list"
  shows "\<forall>x\<in>set xs. 0 \<le> x \<Longrightarrow> y \<in> set xs \<Longrightarrow> y \<le> sum_list xs"
proof (induction xs)
  case Nil
  then show ?case by simp
next
  case (Cons a xs)
  then have "0 \<le> sum_list xs" "0 \<le> a" by (simp_all add: sum_list_nonneg_real)
  with Cons show ?case by auto
qed

lemma mean_squares_nonneg: "0 \<le> mean (map (\<lambda>x. x ^ 2) a)"
  by (simp add: mean_def sum_list_nonneg_real)

lemma sqrt_mean_square_nonneg: "sqrt_mean_square w = Val r \<Longrightarrow> 0 \<le> r"
  by (cases "w = []") (auto simp: sqrt_mean_square_Val mean_squares_nonneg)

lemma sqrt_mean_square_zeros: "0 < n \<Longrightarrow> sqrt_mean_square (replicate n 0) = Val 0"
  by (simp add: sqrt_mean_square_Val mean_def sum_list_replicate)

lemma sqrt_mean_square_pos:
  assumes "y \<in> set w" and "y \<noteq> 0"
  shows "\<exists>r. sqrt_mean_square w = Val r \<and> r \<noteq> 0"
proof -
  have ne: "w \<noteq> []" using assms(1) by auto
  have "y ^ 2 \<in> set (map (\<lambda>x. x ^ 2) w)" using assms(1) by auto
  moreover have "\<forall>x\<in>set (map (\<lambda>x. x ^ 2) w). 0 \<le> x" by auto
  ultimately have "y ^ 2 \<le> sum_list (map (\<lambda>x. x ^ 2) w)"
    using member_le_sum_list_real by blast
  moreover have "0 < y ^ 2" using assms(2) by simp
  ultimately have "0 < sum_list (map (\<lambda>x. x ^ 2) w)" by linarith
  then have "0 < mean (map (\<lambda>x. x ^ 2) w)"
    using ne by (simp add: mean_def)
  then show ?thesis
    using ne by (simp add: sqrt_mean_square_Val)
qed

lemma sqrt_mean_square_scale:
  assumes "sqrt_mean_square w = Val r"
  shows "sqrt_mean_square (map (\<lambda>x. x * c) w) = Val (r * \<bar>c\<bar>)"
proof -
  have ne: "w \<noteq> []" using assms by (auto simp: sqrt_mean_square_NaN_iff [symmetric])
  then have r: "r = sqrt (mean (map (\<lambda>x. x ^ 2) w))"
    using assms by (simp add: sqrt_mean_square_Val)
  have "map (\<lambda>x. x ^ 2) (map (\<lambda>x. x * c) w) = map (\<lambda>x. x * c ^ 2) (map (\<lambda>x. x ^ 2) w)"
    by (simp add: power_mult_distrib)
  then have "mean (map (\<lambda>x. x ^ 2) (map (\<lambda>x. x * c) w)) = mean (map (\<lambda>x. x ^ 2) w) * c ^ 2"
    by (simp only: mean_scale)
  then show ?thesis
    using ne by (simp add: sqrt_mean_square_Val r real_sqrt_mult)
qed

text \<open>
  C7, as it holds: in exact arithmetic, adding a constant \<open>k\<close> to every sample of a
  non-empty sequence does not change its RMS, because the bias removal takes the constant
  out again.
\<close>

theorem calc_rms_shift_invariant:
  "s \<noteq> [] \<Longrightarrow> calc_rms (map (\<lambda>x. x + k) s) = calc_rms s"
  by (simp add: calc_rms_def remove_dc_bias_shift)

theorem calc_rms_shift_invariant_witness:
  "[1, 2, 4] \<noteq> ([] :: real list) \<and>
   calc_rms (map (\<lambda>x. x + 10) [1, 2, 4]) = calc_rms [1, 2, 4]"
  using calc_rms_shift_invariant [of "[1, 2, 4]" 10] by simp

section \<open>Percentiles\<close>

lemma convex_bounds:
  fixes a b g lo hi :: real
  assumes "lo \<le> a" "a \<le> hi" "lo \<le> b" "b \<le> hi" "0 \<le> g" "g \<le> 1"
  shows "lo \<le> a + (b - a) * g \<and> a + (b - a) * g \<le> hi"
proof -
  have eq: "a + (b - a) * g = (1 - g) * a + g * b"
    by (simp add: algebra_simps)
  have "(1 - g) * lo \<le> (1 - g) * a" "g * lo \<le> g * b"
    using assms by (simp_all add: mult_left_mono)
  moreover have "(1 - g) * a \<le> (1 - g) * hi" "g * b \<le> g * hi"
    using assms by (simp_all add: mult_left_mono)
  ultimately show ?thesis
    unfolding eq by (simp add: algebra_simps)
qed

lemma np_percentile_valid:
  "a \<noteq> [] \<Longrightarrow> 0 \<le> q \<Longrightarrow> q \<le> 100 \<Longrightarrow>
   np_percentile a q = Inr (lerp_sorted (sort a) (real (length a - 1) * (q / 100)))"
  by (simp add: np_percentile_def)

lemma lerp_sorted_bounds:
  assumes ne: "xs \<noteq> []" and v0: "0 \<le> v"
    and b: "\<forall>x\<in>set xs. lo \<le> x \<and> x \<le> hi"
  shows "lo \<le> lerp_sorted xs v \<and> lerp_sorted xs v \<le> hi"
proof -
  define n where "n = length xs"
  define i where "i = nat \<lfloor>v\<rfloor>"
  have n: "0 < n" using ne by (simp add: n_def)
  have inb: "lo \<le> xs ! j \<and> xs ! j \<le> hi" if "j < n" for j
    using that b by (simp add: n_def)
  show ?thesis
  proof (cases "real (n - 1) \<le> v")
    case True
    then have "lerp_sorted xs v = xs ! (n - 1)"
      by (simp add: lerp_sorted_def Let_def n_def)
    then show ?thesis using inb [of "n - 1"] n by simp
  next
    case False
    then have lt: "v < real (n - 1)" by simp
    have iv: "real i \<le> v" "v < real i + 1"
      using v0 by (simp_all add: i_def)
    then have "real i < real (n - 1)" using lt by linarith
    then have i: "i < n - 1" by simp
    have eq: "lerp_sorted xs v = xs ! i + (xs ! (i + 1) - xs ! i) * (v - real i)"
      using False unfolding lerp_sorted_def Let_def n_def i_def by (simp only: if_False)
    have "lo \<le> xs ! i + (xs ! (i + 1) - xs ! i) * (v - real i) \<and>
          xs ! i + (xs ! (i + 1) - xs ! i) * (v - real i) \<le> hi"
      using inb [of i] inb [of "i + 1"] i iv by (intro convex_bounds) simp_all
    then show ?thesis using eq by simp
  qed
qed

lemma np_percentile_bounds:
  assumes ne: "a \<noteq> []" and q: "0 \<le> q" "q \<le> 100"
    and b: "\<forall>x\<in>set a. lo \<le> x \<and> x \<le> hi"
  shows "\<exists>v. np_percentile a q = Inr v \<and> lo \<le> v \<and> v \<le> hi"
proof -
  have "sort a \<noteq> []" using ne by (metis length_0_conv length_sort)
  moreover have "0 \<le> real (length a - 1) * (q / 100)" using q by simp
  moreover have "\<forall>x\<in>set (sort a). lo \<le> x \<and> x \<le> hi" using b by simp
  ultimately have "lo \<le> lerp_sorted (sort a) (real (length a - 1) * (q / 100)) \<and>
      lerp_sorted (sort a) (real (length a - 1) * (q / 100)) \<le> hi"
    by (rule lerp_sorted_bounds)
  then show ?thesis using np_percentile_valid [OF ne q] by simp
qed

text \<open>
  C10: for a non-empty sequence and a percentile in \<open>[0, 100]\<close>, \<open>calc_peak\<close> returns a
  number, and the number is not negative: it is interpolated between absolute values of the
  bias-removed samples.
\<close>

theorem calc_peak_nonneg:
  assumes "s \<noteq> []" and "0 \<le> p" and "p \<le> 100"
  shows "\<exists>v. calc_peak s p = Inr v \<and> 0 \<le> v"
proof -
  define ac where "ac = remove_dc_bias s"
  define top where "top = Max (set (map abs ac))"
  have ne: "map abs ac \<noteq> []"
    using assms(1) by (simp add: ac_def remove_dc_bias_eq)
  have "\<forall>x\<in>set (map abs ac). 0 \<le> x \<and> x \<le> top"
    by (auto simp: top_def)
  from np_percentile_bounds [OF ne assms(2,3) this]
  show ?thesis by (auto simp: calc_peak_def ac_def)
qed

theorem calc_peak_nonneg_witness:
  "[0, 0, 3] \<noteq> ([] :: real list) \<and> (0 :: real) \<le> 995 / 10 \<and> (995 / 10 :: real) \<le> 100 \<and>
   (\<exists>v. calc_peak [0, 0, 3] (995 / 10) = Inr v \<and> 0 \<le> v)"
  using calc_peak_nonneg [of "[0, 0, 3]" "995 / 10"] by simp

text \<open>
  C2: for a non-empty sequence and a percentile \<open>p\<close> in \<open>[0, 100]\<close>,
  \<open>calc_peak_to_peak\<close> returns the percentile \<open>p\<close> minus the percentile \<open>100 - p\<close> of the
  bias-removed samples themselves, with their signs. This is not twice \<open>calc_peak\<close>: on
  the asymmetric sequence \<open>[0, 0, 3]\<close>, at the default percentile, the peak-to-peak value
  is 2.97 and the peak is 1.99.
\<close>

theorem calc_peak_to_peak_signed:
  assumes "s \<noteq> []" and "0 \<le> p" and "p \<le> 100"
  shows "(\<exists>high low. np_percentile (remove_dc_bias s) p = Inr high
      \<and> np_percentile (remove_dc_bias s) (100 - p) = Inr low
      \<and> calc_peak_to_peak s p = Inr (high - low))
    \<and> calc_peak_to_peak [0, 0, 3] default_percentile = Inr (297 / 100)
    \<and> calc_peak [0, 0, 3] default_percentile = Inr (199 / 100)"
proof -
  have ne: "remove_dc_bias s \<noteq> []" using assms(1) by (simp add: remove_dc_bias_eq)
  have "np_percentile (remove_dc_bias s) p =
      Inr (lerp_sorted (sort (remove_dc_bias s)) (real (length (remove_dc_bias s) - 1) * (p / 100)))"
    using ne assms(2,3) by (rule np_percentile_valid)
  moreover have "np_percentile (remove_dc_bias s) (100 - p) =
      Inr (lerp_sorted (sort (remove_dc_bias s)) (real (length (remove_dc_bias s) - 1) * ((100 - p) / 100)))"
    using ne assms(2,3) by (intro np_percentile_valid) simp_all
  ultimately have "\<exists>high low. np_percentile (remove_dc_bias s) p = Inr high
      \<and> np_percentile (remove_dc_bias s) (100 - p) = Inr low
      \<and> calc_peak_to_peak s p = Inr (high - low)"
    by (simp add: calc_peak_to_peak_def Let_def)
  moreover have "calc_peak_to_peak [0, 0, 3] default_percentile = Inr (297 / 100)"
    by (simp add: calc_peak_to_peak_def remove_dc_bias_eq mean_def np_percentile_def
        lerp_sorted_def default_percentile_def Let_def)
  moreover have "calc_peak [0, 0, 3] default_percentile = Inr (199 / 100)"
    by (simp add: calc_peak_def remove_dc_bias_eq mean_def np_percentile_def
        lerp_sorted_def default_percentile_def Let_def)
  ultimately show ?thesis by blast
qed

theorem calc_peak_to_peak_signed_witness:
  "[0, 0, 3] \<noteq> ([] :: real list) \<and> (0 :: real) \<le> 100 \<and> (100 :: real) \<le> 100 \<and>
   np_percentile (remove_dc_bias [0, 0, 3]) 100 = Inr 2 \<and>
   np_percentile (remove_dc_bias [0, 0, 3]) (100 - 100) = Inr (- 1) \<and>
   calc_peak_to_peak [0, 0, 3] 100 = Inr 3"
proof -
  have hi: "np_percentile (remove_dc_bias [0, 0, 3]) 100 = Inr 2"
    by (simp add: remove_dc_bias_eq mean_def np_percentile_def lerp_sorted_def Let_def)
  have lo: "np_percentile (remove_dc_bias [0, 0, 3]) (100 - 100) = Inr (- 1)"
    by (simp add: remove_dc_bias_eq mean_def np_percentile_def lerp_sorted_def Let_def)
  show ?thesis
    using calc_peak_to_peak_signed [of "[0, 0, 3]" 100] hi lo by auto
qed

text \<open>
  C4, as the claim states it, fails: on the empty sequence \<open>remove_dc_bias\<close> and
  \<open>calc_rms\<close> do return, the one the empty sequence and the other NaN.
\<close>

theorem empty_input_returns:
  "remove_dc_bias [] = [] \<and> calc_rms [] = NaN"
  by (simp add: calc_rms_def)

text \<open>
  C4, as it holds: on the empty sequence \<open>remove_dc_bias\<close> returns the empty sequence and
  \<open>calc_rms\<close> returns NaN, while \<open>calc_peak\<close> and \<open>calc_peak_to_peak\<close> end with the
  IndexError that \<open>np.percentile\<close> raises.
\<close>

theorem empty_input_behaviour:
  "remove_dc_bias [] = [] \<and> calc_rms [] = NaN
   \<and> calc_peak [] default_percentile = Inl IndexError
   \<and> calc_peak_to_peak [] default_percentile = Inl IndexError"
  by (simp add: calc_rms_def calc_peak_def calc_peak_to_peak_def np_percentile_def
      default_percentile_def)

section \<open>The reference waveform\<close>

lemma length_linspace [simp]: "length (linspace duration n) = n"
  by (simp add: linspace_def)

lemma np_mod_less:
  assumes "0 < m"
  shows "np_mod x m < m"
proof -
  have "x / m < of_int \<lfloor>x / m\<rfloor> + 1" by linarith
  then have "x < (of_int \<lfloor>x / m\<rfloor> + 1) * m"
    using assms by (simp only: pos_divide_less_eq)
  then show ?thesis by (simp add: np_mod_def algebra_simps)
qed

lemma unscaled_sine:
  "unscaled_wave params (Str ''sine'') (Num f) t = Inr (map (\<lambda>t. sin (2 * pi * f * t)) t)"
  by (simp add: unscaled_wave_def and_then_def as_number_def)

lemma unscaled_dimmer:
  assumes "params ''duty_pct'' = Some (Num d)"
  shows "unscaled_wave params (Str ''dimmer'') (Num f) t =
     Inr (map (\<lambda>t. if pi * (1 - d / 100) \<le> np_mod (2 * pi * f * t) pi
                     then sin (2 * pi * f * t) else 0) t)"
  using assms by (simp add: unscaled_wave_def and_then_def as_number_def subscript_def Let_def)

lemma unscaled_dimmer_off:
  assumes "params ''duty_pct'' = Some (Num 0)"
  shows "unscaled_wave params (Str ''dimmer'') (Num f) t = Inr (replicate (length t) 0)"
proof -
  have "\<not> pi \<le> np_mod x pi" for x
    using np_mod_less [of pi x] by simp
  then show ?thesis
    by (simp add: unscaled_dimmer [of params 0, OF assms] map_replicate_const)
qed

lemma scale_to_vrms_zeros: "scale_to_vrms vrms (replicate n 0) = Inr (replicate n 0)"
  by (cases "n = 0") (simp_all add: scale_to_vrms_def sqrt_mean_square_zeros)

lemma scale_to_vrms_scaled:
  assumes "sqrt_mean_square wave = Val r" and "0 < r"
  shows "scale_to_vrms (Num v) wave = Inr (map (\<lambda>w. w * (v / r)) wave)"
  using assms by (simp add: scale_to_vrms_def and_then_def as_number_def)

lemma generate_reference_unfold:
  assumes "params ''freq_hz'' = Some f" and "params ''vrms_v'' = Some vrms"
    and "params ''type'' = Some wtype"
  shows "generate_reference params duration n =
     and_then (unscaled_wave params wtype f (linspace duration n)) (\<lambda>wave.
     and_then (scale_to_vrms vrms wave) (\<lambda>wave. Inr (linspace duration n, wave)))"
  using assms by (simp add: generate_reference_def Let_def and_then_def subscript_def)

lemma generate_reference_scaled:
  assumes "params ''freq_hz'' = Some f" and "params ''vrms_v'' = Some (Num v)"
    and "params ''type'' = Some wtype"
    and "unscaled_wave params wtype f (linspace duration n) = Inr wave"
    and "sqrt_mean_square wave = Val r" and "0 < r"
  shows "generate_reference params duration n =
     Inr (linspace duration n, map (\<lambda>w. w * (v / r)) wave)"
  using assms
  by (simp add: generate_reference_unfold [OF assms(1-3)] and_then_def scale_to_vrms_scaled)

text \<open>The sine of frequency 1 on four points of one period, used as a concrete input.\<close>

lemma unscaled_sine_four:
  "unscaled_wave p (Str ''sine'') (Num 1) (linspace 1 4) = Inr [0, 1, 0, - 1]"
proof -
  have "linspace 1 4 = [0, 1 / 4, 1 / 2, 3 / 4]"
    by (simp add: linspace_def upt_rec)
  moreover have "sin (2 * pi * (3 / 4)) = - 1"
    using sin_3over2_pi by (simp add: field_simps)
  ultimately show ?thesis
    by (simp add: unscaled_sine)
qed

lemma sqrt_mean_square_sine_four: "sqrt_mean_square [0, 1, 0, - 1] = Val (sqrt (1 / 2))"
  by (simp add: sqrt_mean_square_Val mean_def)

text \<open>
  C5: for a dimmer descriptor with \<open>duty_pct = 0\<close> the firing angle is \<open>\<pi>\<close>, which no
  phase in \<open>[0, \<pi>)\<close> reaches, so the unscaled wave is all zeros; with at least one sample
  its raw RMS is 0, the test \<open>rms_raw > 0\<close> fails, and the synthesizer returns the time
  grid with the all-zero wave, never dividing by the raw RMS.
\<close>

theorem dimmer_zero_duty_unscaled:
  assumes "params ''type'' = Some (Str ''dimmer'')" and "params ''freq_hz'' = Some (Num f)"
    and "params ''vrms_v'' = Some vrms" and "params ''duty_pct'' = Some (Num 0)"
  shows "unscaled_wave params (Str ''dimmer'') (Num f) (linspace duration n) = Inr (replicate n 0)
    \<and> (0 < n \<longrightarrow> sqrt_mean_square (replicate n 0) = Val 0)
    \<and> generate_reference params duration n = Inr (linspace duration n, replicate n 0)"
  using assms
  by (simp add: generate_reference_unfold [OF assms(2,3,1)] unscaled_dimmer_off
      sqrt_mean_square_zeros scale_to_vrms_zeros and_then_def)

theorem dimmer_zero_duty_unscaled_witness:
  "(0 :: nat) < 4
   \<and> sqrt_mean_square (replicate 4 0) = Val 0
   \<and> generate_reference
       [''type'' \<mapsto> Str ''dimmer'', ''duty_pct'' \<mapsto> Num 0, ''freq_hz'' \<mapsto> Num 60,
        ''vrms_v'' \<mapsto> Num (118 / 1000)] 1 4 = Inr (linspace 1 4, replicate 4 0)"
  using dimmer_zero_duty_unscaled [of "[''type'' \<mapsto> Str ''dimmer'', ''duty_pct'' \<mapsto> Num 0,
      ''freq_hz'' \<mapsto> Num 60, ''vrms_v'' \<mapsto> Num (118 / 1000)]" 60 "Num (118 / 1000)" 1 4]
  by simp



text \<open>
  C9: when the unscaled wave has positive raw RMS and the target RMS is positive, the
  output of the synthesizer is the unscaled wave with every sample multiplied by the one
  positive number \<open>vrms / rms_raw\<close>; a sample that is zero before the scaling is zero
  after it, and every sample keeps its sign.
\<close>

theorem scaling_is_one_positive_factor:
  assumes "params ''freq_hz'' = Some f" and "params ''vrms_v'' = Some (Num vrms)"
    and "params ''type'' = Some wtype"
    and "unscaled_wave params wtype f (linspace duration n) = Inr wave"
    and "sqrt_mean_square wave = Val rms_raw" and "0 < rms_raw" and "0 < vrms"
  shows "generate_reference params duration n =
      Inr (linspace duration n, map (\<lambda>w. w * (vrms / rms_raw)) wave)
    \<and> 0 < vrms / rms_raw
    \<and> (\<forall>i<length wave.
          (wave ! i = 0 \<longrightarrow> map (\<lambda>w. w * (vrms / rms_raw)) wave ! i = 0)
          \<and> sgn (map (\<lambda>w. w * (vrms / rms_raw)) wave ! i) = sgn (wave ! i))"
proof -
  have c: "0 < vrms / rms_raw" using assms(6,7) by simp
  have "generate_reference params duration n =
      Inr (linspace duration n, map (\<lambda>w. w * (vrms / rms_raw)) wave)"
    using assms(1-6) by (rule generate_reference_scaled)
  moreover have "(wave ! i = 0 \<longrightarrow> map (\<lambda>w. w * (vrms / rms_raw)) wave ! i = 0)
      \<and> sgn (map (\<lambda>w. w * (vrms / rms_raw)) wave ! i) = sgn (wave ! i)" if "i < length wave" for i
  proof -
    have "sgn (vrms / rms_raw) = 1" using c by (rule sgn_pos)
    then have "sgn (wave ! i * (vrms / rms_raw)) = sgn (wave ! i)"
      by (simp only: sgn_mult mult_1_right)
    then show ?thesis using that by simp
  qed
  ultimately show ?thesis using c by blast
qed

theorem scaling_is_one_positive_factor_witness:
  "sqrt_mean_square [0, 1, 0, - 1] = Val (sqrt (1 / 2)) \<and> 0 < sqrt (1 / 2 :: real)
   \<and> generate_reference
       [''type'' \<mapsto> Str ''sine'', ''freq_hz'' \<mapsto> Num 1, ''vrms_v'' \<mapsto> Num 2] 1 4
     = Inr (linspace 1 4, map (\<lambda>w. w * (2 / sqrt (1 / 2))) [0, 1, 0, - 1])
   \<and> 0 < 2 / sqrt (1 / 2 :: real)"
proof -
  define P :: params where
    "P = [''type'' \<mapsto> Str ''sine'', ''freq_hz'' \<mapsto> Num 1, ''vrms_v'' \<mapsto> Num 2]"
  have look: "P ''freq_hz'' = Some (Num 1)" "P ''vrms_v'' = Some (Num 2)"
    "P ''type'' = Some (Str ''sine'')"
    by (simp_all add: P_def)
  have pos: "0 < sqrt (1 / 2 :: real)" "(0 :: real) < 2" by simp_all
  from scaling_is_one_positive_factor
    [OF look unscaled_sine_four sqrt_mean_square_sine_four pos]
  show ?thesis
    using sqrt_mean_square_sine_four pos unfolding P_def by blast
qed

subsection \<open>The round trip through \<open>calc_rms\<close>\<close>

lemma ref_rms_general:
  assumes "params ''freq_hz'' = Some f" and "params ''vrms_v'' = Some (Num v)"
    and "params ''type'' = Some wtype"
    and "unscaled_wave params wtype f (linspace duration n) = Inr wave"
    and "sqrt_mean_square wave = Val r" and "r \<noteq> 0"
    and "sum_list wave = 0" and "0 \<le> v"
  shows "ref_rms params duration n = Inr (Val v)"
proof -
  have r: "0 < r" using sqrt_mean_square_nonneg [OF assms(5)] assms(6) by simp
  define out where "out = map (\<lambda>w. w * (v / r)) wave"
  have gen: "generate_reference params duration n = Inr (linspace duration n, out)"
    unfolding out_def using assms(1-5) r by (rule generate_reference_scaled)
  have "sum_list out = 0"
    unfolding out_def sum_list_scale assms(7) by simp
  then have "calc_rms out = sqrt_mean_square out"
    by (simp add: calc_rms_def mean_zero_remove_dc_bias)
  also have "\<dots> = Val (r * \<bar>v / r\<bar>)"
    unfolding out_def using assms(5) by (rule sqrt_mean_square_scale)
  also have "r * \<bar>v / r\<bar> = v"
    using r assms(8) by simp
  finally show ?thesis
    by (simp add: ref_rms_def gen and_then_def)
qed

lemma sin_shift_int: "sin (2 * pi * real_of_int m - x) = - sin x"
proof -
  have "sin (2 * pi * real_of_int m) = 0" "cos (2 * pi * real_of_int m) = 1"
    by (simp_all add: sin_int_2pin cos_int_2pin)
  then show ?thesis by (simp add: sin_diff)
qed

text \<open>Over whole periods the samples of a sine cancel in pairs \<open>k\<close>, \<open>n - k\<close>.\<close>

lemma sum_sin_grid_zero:
  assumes "0 < n"
  shows "(\<Sum>k<n. sin (2 * pi * real_of_int m * (real k / real n))) = 0"
proof -
  define g where "g k = sin (2 * pi * real_of_int m * (real k / real n))" for k
  obtain j where n: "n = Suc j" using assms by (cases n) auto
  have anti: "g (Suc (j - Suc i)) = - g (Suc i)" if "i < j" for i
  proof -
    have "Suc (j - Suc i) = n - Suc i" "Suc i \<le> n"
      using that n by simp_all
    then have "real (Suc (j - Suc i)) = real n - real (Suc i)"
      by (simp only: of_nat_diff)
    then have "real (Suc (j - Suc i)) / real n = 1 - real (Suc i) / real n"
      using assms by (simp only: diff_divide_distrib) simp
    then have "2 * pi * real_of_int m * (real (Suc (j - Suc i)) / real n) =
        2 * pi * real_of_int m - 2 * pi * real_of_int m * (real (Suc i) / real n)"
      by (simp only: right_diff_distrib mult_1_right)
    then show ?thesis
      unfolding g_def by (simp only: sin_shift_int)
  qed
  have "(\<Sum>i<j. g (Suc i)) = (\<Sum>i<j. g (Suc (j - Suc i)))"
    by (rule sum.nat_diff_reindex [symmetric])
  also have "\<dots> = (\<Sum>i<j. - g (Suc i))"
    by (rule sum.cong) (simp_all add: anti)
  also have "\<dots> = - (\<Sum>i<j. g (Suc i))"
    by (simp add: sum_negf)
  finally have "(\<Sum>i<j. g (Suc i)) = 0" by simp
  moreover have "g 0 = 0" by (simp add: g_def)
  ultimately have "(\<Sum>k<n. g k) = 0"
    unfolding n by (simp only: sum.lessThan_Suc_shift)
  then show ?thesis by (simp add: g_def)
qed

lemma sum_list_upt: "sum_list (map g [0..<n]) = (\<Sum>k<n. g k)"
  by (simp add: interv_sum_list_conv_sum_set_nat atLeast0LessThan)

lemma sine_grid:
  "map (\<lambda>t. sin (2 * pi * f * t)) (linspace 1 n) =
   map (\<lambda>k. sin (2 * pi * f * (real k / real n))) [0..<n]"
  by (simp add: linspace_def)

lemma ref_rms_sine60:
  "ref_rms [''type'' \<mapsto> Str ''sine'', ''freq_hz'' \<mapsto> Num 60, ''vrms_v'' \<mapsto> Num (3385 / 100000)]
     1 10000 = Inr (Val (3385 / 100000))"
proof -
  define P :: params where
    "P = [''type'' \<mapsto> Str ''sine'', ''freq_hz'' \<mapsto> Num 60, ''vrms_v'' \<mapsto> Num (3385 / 100000)]"
  define wave where "wave = map (\<lambda>k. sin (2 * pi * 60 * (real k / real 10000))) [0..<10000]"
  have look: "P ''freq_hz'' = Some (Num 60)" "P ''vrms_v'' = Some (Num (3385 / 100000))"
    "P ''type'' = Some (Str ''sine'')"
    by (simp_all add: P_def)
  have un: "unscaled_wave P (Str ''sine'') (Num 60) (linspace 1 10000) = Inr wave"
    unfolding wave_def by (simp only: unscaled_sine sine_grid)
  have "sum_list wave = (\<Sum>k<10000. sin (2 * pi * real_of_int 60 * (real k / real 10000)))"
    unfolding wave_def by (simp only: sum_list_upt) simp
  also have "\<dots> = 0" by (rule sum_sin_grid_zero) simp
  finally have zero: "sum_list wave = 0" .
  have pos: "0 < sin (2 * pi * 60 * (real 1 / real 10000))"
    by (rule sin_gt_zero) (simp_all add: field_simps)
  have "sin (2 * pi * 60 * (real 1 / real 10000)) \<in> set wave"
    unfolding wave_def set_map set_upt by (rule image_eqI [where x = 1]) simp_all
  with pos obtain r where r: "sqrt_mean_square wave = Val r" "r \<noteq> 0"
    using sqrt_mean_square_pos by (metis less_irrefl)
  have "ref_rms P 1 10000 = Inr (Val (3385 / 100000))"
    using look un r zero by (rule ref_rms_general) simp
  then show ?thesis unfolding P_def .
qed

text \<open>
  C1, as the claim states it, fails: the triangle descriptor with \<open>f = 1\<close> and target RMS
  1, sampled at three points over one period, has the unscaled wave \<open>[1, -1/3, -1/3]\<close>,
  whose raw RMS is \<open>\<surd>(11/27)\<close>, not zero; the wave is scaled by the raw RMS, which keeps
  its mean of 1/9, and \<open>calc_rms\<close> removes the mean before squaring: the RMS of the output
  is \<open>\<surd>(32/33)\<close>, about 0.985, and not the target 1.
\<close>

theorem triangle_three_points_rms:
  "unscaled_wave [''type'' \<mapsto> Str ''triangle'', ''freq_hz'' \<mapsto> Num 1, ''vrms_v'' \<mapsto> Num 1]
      (Str ''triangle'') (Num 1) (linspace 1 3) = Inr [1, - (1 / 3), - (1 / 3)]
   \<and> sqrt_mean_square [1, - (1 / 3), - (1 / 3)] = Val (sqrt (11 / 27))
   \<and> ref_rms [''type'' \<mapsto> Str ''triangle'', ''freq_hz'' \<mapsto> Num 1, ''vrms_v'' \<mapsto> Num 1] 1 3
        = Inr (Val (sqrt (32 / 33)))
   \<and> sqrt (32 / 33) < 1"
proof -
  define P :: params where
    "P = [''type'' \<mapsto> Str ''triangle'', ''freq_hz'' \<mapsto> Num 1, ''vrms_v'' \<mapsto> Num 1]"
  define wave :: "real list" where "wave = [1, - (1 / 3), - (1 / 3)]"
  have grid: "linspace 1 3 = [0, 1 / 3, 2 / 3]"
    by (simp add: linspace_def upt_rec)
  have un: "unscaled_wave P (Str ''triangle'') (Num 1) (linspace 1 3) = Inr wave"
    by (simp add: grid unscaled_wave_def and_then_def as_number_def np_mod_def wave_def)
  have raw: "sqrt_mean_square wave = Val (sqrt (11 / 27))"
    by (simp add: sqrt_mean_square_Val mean_def wave_def power2_eq_square)
  have pos: "0 < sqrt (11 / 27 :: real)" by simp
  have look: "P ''freq_hz'' = Some (Num 1)" "P ''vrms_v'' = Some (Num 1)"
    "P ''type'' = Some (Str ''triangle'')"
    by (simp_all add: P_def)
  have gen: "generate_reference P 1 3 =
      Inr (linspace 1 3, map (\<lambda>w. w * (1 / sqrt (11 / 27))) wave)"
    using look un raw pos by (rule generate_reference_scaled)
  have ac: "remove_dc_bias wave = [8 / 9, - (4 / 9), - (4 / 9)]"
    by (simp add: remove_dc_bias_eq mean_def wave_def)
  have "sqrt_mean_square [8 / 9, - (4 / 9), - (4 / 9)] = Val (sqrt (32 / 81))"
    by (simp add: sqrt_mean_square_Val mean_def power2_eq_square)
  then have "calc_rms (map (\<lambda>w. w * (1 / sqrt (11 / 27))) wave)
      = Val (sqrt (32 / 81) * \<bar>1 / sqrt (11 / 27)\<bar>)"
    unfolding calc_rms_def Let_def remove_dc_bias_scale ac by (rule sqrt_mean_square_scale)
  also have "sqrt (32 / 81) * \<bar>1 / sqrt (11 / 27)\<bar> = sqrt (32 / 81 / (11 / 27))"
  proof -
    have "\<bar>1 / sqrt (11 / 27 :: real)\<bar> = 1 / sqrt (11 / 27)"
      by (rule abs_of_nonneg) simp
    then have "sqrt (32 / 81) * \<bar>1 / sqrt (11 / 27)\<bar> = sqrt (32 / 81) / sqrt (11 / 27)"
      by (simp only: times_divide_eq_right mult_1_right)
    also have "\<dots> = sqrt (32 / 81 / (11 / 27))"
      by (rule real_sqrt_divide [symmetric])
    finally show ?thesis .
  qed
  also have "(32 / 81 / (11 / 27) :: real) = 32 / 33" by simp
  finally have "ref_rms P 1 3 = Inr (Val (sqrt (32 / 33)))"
    by (simp add: ref_rms_def gen and_then_def)
  moreover have "sqrt (32 / 33) < 1"
    using real_sqrt_less_iff [of "32 / 33" 1] by simp
  ultimately show ?thesis
    using un raw unfolding P_def wave_def by simp
qed

text \<open>
  C1, as it holds: in exact arithmetic, when the unscaled wave has nonzero raw RMS, its
  samples sum to zero and the target RMS is not negative, \<open>calc_rms\<close> of the synthesizer's
  output is the target RMS. In particular the sine descriptor with \<open>f = 60\<close> and target
  RMS 33.85 mV, at the default duration 1 and the default 10000 points, gives back exactly
  0.03385.
\<close>

theorem ref_rms_roundtrip:
  assumes "params ''freq_hz'' = Some f" and "params ''vrms_v'' = Some (Num vrms)"
    and "params ''type'' = Some wtype"
    and "unscaled_wave params wtype f (linspace duration n) = Inr wave"
    and "sqrt_mean_square wave = Val rms_raw" and "rms_raw \<noteq> 0"
    and "sum_list wave = 0" and "0 \<le> vrms"
  shows "ref_rms params duration n = Inr (Val vrms)
    \<and> ref_rms [''type'' \<mapsto> Str ''sine'', ''freq_hz'' \<mapsto> Num 60, ''vrms_v'' \<mapsto> Num (3385 / 100000)]
         default_duration default_n_points = Inr (Val (3385 / 100000))"
  using ref_rms_general [OF assms] ref_rms_sine60
  by (simp add: default_duration_def default_n_points_def)

theorem ref_rms_roundtrip_witness:
  "sqrt_mean_square [0, 1, 0, - 1] = Val (sqrt (1 / 2)) \<and> sqrt (1 / 2 :: real) \<noteq> 0
   \<and> sum_list [0, 1, 0, - 1 :: real] = 0 \<and> (0 :: real) \<le> 2
   \<and> ref_rms [''type'' \<mapsto> Str ''sine'', ''freq_hz'' \<mapsto> Num 1, ''vrms_v'' \<mapsto> Num 2] 1 4
       = Inr (Val 2)"
proof -
  define P :: params where
    "P = [''type'' \<mapsto> Str ''sine'', ''freq_hz'' \<mapsto> Num 1, ''vrms_v'' \<mapsto> Num 2]"
  have look: "P ''freq_hz'' = Some (Num 1)" "P ''vrms_v'' = Some (Num 2)"
    "P ''type'' = Some (Str ''sine'')"
    by (simp_all add: P_def)
  have ne: "sqrt (1 / 2 :: real) \<noteq> 0" by simp
  have z: "sum_list [0, 1, 0, - 1 :: real] = 0" "(0 :: real) \<le> 2" by simp_all
  from ref_rms_roundtrip [OF look unscaled_sine_four sqrt_mean_square_sine_four ne z]
  show ?thesis
    using sqrt_mean_square_sine_four ne z unfolding P_def by blast
qed

section \<open>Evaluation in binary64\<close>

lemma round_half_even_of_int [simp]: "round_half_even (of_int m) = m"
  by (simp add: round_half_even_def)

lemma two_powr_of_int: "2 powr real_of_int e = (2 :: real) powi e"
  by (rule powr_real_of_int') simp_all

lemma two_powr_of_int_Suc: "2 powr (real_of_int e + 1) = (2 :: real) powi (e + 1)"
  using two_powr_of_int [of "e + 1"] by simp

lemma floor_log2_iff:
  assumes "x \<noteq> 0"
  shows "\<lfloor>log 2 \<bar>x\<bar>\<rfloor> = e \<longleftrightarrow> 2 powi e \<le> \<bar>x\<bar> \<and> \<bar>x\<bar> < 2 powi (e + 1)"
  using assms floor_log_eq_powr_iff [of "\<bar>x\<bar>" 2 e]
  by (simp only: two_powr_of_int two_powr_of_int_Suc)

lemma binade_nonzero:
  assumes "2 powi e \<le> \<bar>x :: real\<bar>"
  shows "x \<noteq> 0"
proof -
  have "0 < (2 :: real) powi e" by simp
  then have "0 < \<bar>x\<bar>" using assms by linarith
  then show ?thesis by simp
qed

text \<open>With the binade of \<open>x\<close> known, the rounding is a computation on numerals.\<close>

lemma binary64_eval:
  assumes "2 powi e \<le> \<bar>x\<bar>" and "\<bar>x\<bar> < 2 powi (e + 1)"
  shows "binary64 x = of_int (round_half_even (x / 2 powi (e - 52))) * 2 powi (e - 52)"
proof -
  have x: "x \<noteq> 0" using assms(1) by (rule binade_nonzero)
  then have "\<lfloor>log 2 \<bar>x\<bar>\<rfloor> = e" using assms by (simp add: floor_log2_iff)
  then show ?thesis
    using x by (simp add: binary64_def Let_def)
qed

text \<open>A number with a significand below \<open>2 ^ 53\<close> is representable: rounding keeps it.\<close>

lemma binary64_exact:
  assumes m: "\<bar>m\<bar> < 2 ^ 53"
  shows "binary64 (of_int m * 2 powi e) = of_int m * 2 powi e"
proof (cases "m = 0")
  case True
  then show ?thesis by (simp add: binary64_def)
next
  case False
  define b where "b = \<lfloor>log 2 \<bar>real_of_int m\<bar>\<rfloor>"
  have m0: "real_of_int m \<noteq> 0" using False by simp
  have bnd: "2 powi b \<le> \<bar>real_of_int m\<bar>" "\<bar>real_of_int m\<bar> < 2 powi (b + 1)"
    using floor_log2_iff [OF m0, of b] by (simp_all add: b_def)
  have "1 \<le> \<bar>m\<bar>" using False by arith
  then have "real_of_int 1 \<le> real_of_int \<bar>m\<bar>" by (simp only: of_int_le_iff)
  then have "1 \<le> \<bar>real_of_int m\<bar>" by simp
  then have one: "1 < (2 :: real) powi (b + 1)" using bnd(2) by simp
  have b0: "0 \<le> b"
  proof (rule ccontr)
    assume "\<not> 0 \<le> b"
    then have "b + 1 \<le> 0" by simp
    then have "(2 :: real) powi (b + 1) \<le> 2 powi 0"
      by (intro power_int_increasing) simp_all
    with one show False by simp
  qed
  have "\<bar>real_of_int m\<bar> < 2 ^ 53"
    using m by (metis of_int_less_iff of_int_numeral of_int_power of_int_abs)
  then have "(2 :: real) powi b < 2 powi 53" using bnd(1) by simp
  then have "b < 53"
    by (intro power_int_le_imp_less_exp [of "2 :: real"]) simp_all
  then have b52: "b \<le> 52" by simp
  define x where "x = real_of_int m * 2 powi e"
  have ax: "\<bar>x\<bar> = \<bar>real_of_int m\<bar> * 2 powi e"
    by (simp add: x_def abs_mult)
  have lo: "2 powi (b + e) \<le> \<bar>x\<bar>"
    unfolding ax using bnd(1) by (simp add: power_int_add)
  have hi: "\<bar>x\<bar> < 2 powi (b + e + 1)"
  proof -
    have "\<bar>real_of_int m\<bar> * 2 powi e < 2 powi (b + 1) * 2 powi e"
      using bnd(2) by (simp add: zero_less_power_int)
    also have "\<dots> = 2 powi (b + e + 1)"
      by (simp add: power_int_add algebra_simps)
    finally show ?thesis unfolding ax .
  qed
  have q: "x / 2 powi (b + e - 52) = real_of_int (m * 2 ^ nat (52 - b))"
  proof -
    have "x / 2 powi (b + e - 52) = real_of_int m * (2 powi e / 2 powi (b + e - 52))"
      by (simp add: x_def)
    also have "2 powi e / 2 powi (b + e - 52) = (2 :: real) powi (52 - b)"
      by (simp add: power_int_diff [symmetric])
    also have "(2 :: real) powi (52 - b) = 2 ^ nat (52 - b)"
      using b52 by (simp add: power_int_def)
    finally show ?thesis by simp
  qed
  have "binary64 x = real_of_int (m * 2 ^ nat (52 - b)) * 2 powi (b + e - 52)"
    using binary64_eval [OF lo hi] by (simp only: q round_half_even_of_int)
  also have "\<dots> = real_of_int m * (2 powi (52 - b) * 2 powi (b + e - 52))"
    using b52 by (simp add: power_int_def)
  also have "2 powi (52 - b) * 2 powi (b + e - 52) = (2 :: real) powi e"
    by (simp add: power_int_add [symmetric])
  finally show ?thesis by (simp add: x_def)
qed

lemma binary64_dyadic:
  "\<bar>m\<bar> < 2 ^ 53 \<Longrightarrow> binary64 (of_int m / 2 ^ k) = of_int m / 2 ^ k"
  using binary64_exact [of m "- int k"] by (simp add: power_int_minus field_simps)

lemma binary64_scaled:
  "\<bar>m\<bar> < 2 ^ 53 \<Longrightarrow> binary64 (of_int m * 2 ^ k) = of_int m * 2 ^ k"
  using binary64_exact [of m "int k"] by simp

lemma binary64_0 [simp]: "binary64 0 = 0"
  by (simp add: binary64_def)

lemma round_half_even_error: "\<bar>of_int (round_half_even y) - y\<bar> \<le> 1 / 2"
proof -
  have "of_int \<lfloor>y\<rfloor> \<le> y" "y < of_int \<lfloor>y\<rfloor> + 1" by linarith+
  then show ?thesis
    by (auto simp: round_half_even_def Let_def)
qed

text \<open>One rounding moves a number by at most half a unit in its last place.\<close>

lemma binary64_error: "\<bar>binary64 x - x\<bar> \<le> \<bar>x\<bar> / 2 ^ 53"
proof (cases "x = 0")
  case True
  then show ?thesis by simp
next
  case False
  define e where "e = \<lfloor>log 2 \<bar>x\<bar>\<rfloor>"
  define ulp :: real where "ulp = 2 powi (e - 52)"
  have lo: "2 powi e \<le> \<bar>x\<bar>"
    using floor_log2_iff [OF False, of e] by (simp add: e_def)
  have ulp: "0 < ulp" by (simp add: ulp_def)
  have b: "binary64 x = of_int (round_half_even (x / ulp)) * ulp"
    using False by (simp add: binary64_def Let_def e_def ulp_def)
  have "binary64 x - x = (of_int (round_half_even (x / ulp)) - x / ulp) * ulp"
    using ulp by (simp add: b algebra_simps)
  then have "\<bar>binary64 x - x\<bar> = \<bar>of_int (round_half_even (x / ulp)) - x / ulp\<bar> * ulp"
    using ulp by (simp add: abs_mult)
  also have "\<dots> \<le> 1 / 2 * ulp"
    using ulp round_half_even_error [of "x / ulp"] by (intro mult_right_mono) simp_all
  also have "1 / 2 * ulp = 2 powi e / 2 ^ 53"
    by (simp add: ulp_def power_int_diff)
  also have "\<dots> \<le> \<bar>x\<bar> / 2 ^ 53"
    using lo by (simp add: divide_right_mono)
  finally show ?thesis .
qed

lemma np_mean_b64_2:
  "np_mean_b64 [a, b] = Val (binary64 (binary64 (binary64 (0 + a) + b) / 2))"
  by (simp add: np_mean_b64_def sum_b64_def)

lemma np_mean_b64_3:
  "np_mean_b64 [a, b, c] =
     Val (binary64 (binary64 (binary64 (binary64 (0 + a) + b) + c) / 3))"
  by (simp add: np_mean_b64_def sum_b64_def)

subsection \<open>The current at full scale\<close>

lemma binary64_333: "binary64 (333 / 1000) = 5998794703657501 / 2 ^ 54"
  using binary64_eval [of "- 2" "333 / 1000"]
  by (simp add: round_half_even_def power_int_minus)

lemma binary64_333_times_100:
  "binary64 (5998794703657501 / 2 ^ 54 * 100) = 4686558362232423 / 2 ^ 47"
  using binary64_eval [of 5 "5998794703657501 / 2 ^ 54 * 100"]
  by (simp add: round_half_even_def power_int_minus)

lemma binary64_full_scale_quotient:
  "binary64 (4686558362232423 / 2 ^ 47 / (5998794703657501 / 2 ^ 54)) = 100 + 1 / 2 ^ 46"
  using binary64_eval [of 6 "4686558362232423 / 2 ^ 47 / (5998794703657501 / 2 ^ 54)"]
  by (simp add: round_half_even_def power_int_minus)

text \<open>
  C3, as the claim states it, fails: in binary64 the product \<open>0.333 * 100\<close> rounds to
  33.300000000000004 and its quotient by \<open>0.333\<close> to \<open>100 + 2 ^ -46\<close>, which Python prints
  as 100.00000000000001; \<open>vrms_to_current(0.333, 100)\<close> is not 100.0.
\<close>

theorem vrms_to_current_b64_full_scale:
  "vrms_to_current_b64 (binary64 (333 / 1000)) 100 = 100 + 1 / 2 ^ 46"
  by (simp only: vrms_to_current_b64_def CT_FS_VOLTAGE_def binary64_333
      binary64_333_times_100 binary64_full_scale_quotient)

lemma vrms_to_current_b64_error:
  "\<bar>vrms_to_current_b64 vrms i_primary - vrms_to_current vrms i_primary\<bar>
     \<le> \<bar>vrms_to_current vrms i_primary\<bar> / 2 ^ 51"
proof -
  define p where "p = vrms * i_primary"
  define a where "a = binary64 p"
  define C :: real where "C = 5998794703657501 / 2 ^ 54"
  define r where "r = binary64 (a / C)"
  define d where "d = \<bar>a - p\<bar>"
  have C: "0 < C" by (simp add: C_def)
  have h1: "d \<le> \<bar>p\<bar> / 2 ^ 53"
    unfolding d_def a_def by (rule binary64_error)
  have "\<bar>r - a / C\<bar> \<le> \<bar>a / C\<bar> / 2 ^ 53"
    unfolding r_def by (rule binary64_error)
  then have h2: "\<bar>r - a / C\<bar> \<le> \<bar>a\<bar> / C / 2 ^ 53"
    using C by (simp add: abs_divide)
  have h3: "\<bar>a\<bar> \<le> \<bar>p\<bar> + d"
    unfolding d_def by linarith
  have h4: "\<bar>a / C - p / C\<bar> = d / C"
    using C by (simp add: d_def diff_divide_distrib [symmetric] abs_divide)
  have "p / C - p / (333 / 1000) = p * (1 / C - 1000 / 333)"
    by (simp add: algebra_simps)
  then have "\<bar>p / C - p / (333 / 1000)\<bar> = \<bar>p\<bar> * \<bar>1 / C - 1000 / 333\<bar>"
    by (simp only: abs_mult)
  also have "\<bar>1 / C - 1000 / 333\<bar> = 1000 / 333 - 1 / C"
    by (simp add: C_def)
  finally have h5: "\<bar>p / C - p / (333 / 1000)\<bar> = \<bar>p\<bar> * (1000 / 333 - 1 / C)" .
  have tri: "\<bar>r - p / (333 / 1000)\<bar>
      \<le> \<bar>r - a / C\<bar> + \<bar>a / C - p / C\<bar> + \<bar>p / C - p / (333 / 1000)\<bar>"
    by linarith
  have s1: "\<bar>a\<bar> / C / 2 ^ 53 \<le> (\<bar>p\<bar> + \<bar>p\<bar> / 2 ^ 53) / C / 2 ^ 53"
    using h1 h3 C by (intro divide_right_mono) simp_all
  have s2: "d / C \<le> \<bar>p\<bar> / 2 ^ 53 / C"
    using h1 C by (intro divide_right_mono) simp_all
  have "\<bar>r - p / (333 / 1000)\<bar>
      \<le> (\<bar>p\<bar> + \<bar>p\<bar> / 2 ^ 53) / C / 2 ^ 53 + \<bar>p\<bar> / 2 ^ 53 / C + \<bar>p\<bar> * (1000 / 333 - 1 / C)"
    using tri h2 s1 s2 unfolding h4 h5 by linarith
  also have "\<dots> = \<bar>p\<bar> * ((1 + 1 / 2 ^ 53) / C / 2 ^ 53 + 1 / 2 ^ 53 / C + (1000 / 333 - 1 / C))"
    by (simp add: algebra_simps add_divide_distrib)
  also have "\<dots> \<le> \<bar>p\<bar> * (1000 / 333 / 2 ^ 51)"
    by (intro mult_left_mono) (simp_all add: C_def)
  also have "\<dots> = \<bar>p / (333 / 1000)\<bar> / 2 ^ 51"
    by (simp add: abs_divide)
  finally have "\<bar>r - p / (333 / 1000)\<bar> \<le> \<bar>p / (333 / 1000)\<bar> / 2 ^ 51" .
  then show ?thesis
    by (simp only: vrms_to_current_b64_def vrms_to_current_def CT_FS_VOLTAGE_def binary64_333
        r_def a_def p_def C_def)
qed

text \<open>
  C3, as it holds: \<open>vrms_to_current\<close> takes \<open>vrms\<close> and \<open>i_primary\<close>; the full-scale
  voltage is the module constant \<open>CT_FS_VOLTAGE = 0.333\<close>. In exact arithmetic the result
  is \<open>vrms * i_primary / CT_FS_VOLTAGE\<close>, with no clamping, and 100 at \<open>(0.333, 100)\<close>;
  computed in binary64 the result is within a relative error of \<open>2 ^ -51\<close> of it.
\<close>

theorem vrms_to_current_linear:
  "vrms_to_current vrms i_primary = vrms * i_primary / CT_FS_VOLTAGE
   \<and> CT_FS_VOLTAGE = 333 / 1000
   \<and> vrms_to_current (333 / 1000) 100 = 100
   \<and> \<bar>vrms_to_current_b64 vrms i_primary - vrms_to_current vrms i_primary\<bar>
        \<le> \<bar>vrms_to_current vrms i_primary\<bar> / 2 ^ 51"
  using vrms_to_current_b64_error [of vrms i_primary]
  by (simp add: vrms_to_current_def CT_FS_VOLTAGE_def)

subsection \<open>A large offset\<close>

lemma binary64_shift_0: "binary64 (0 + 2 ^ 53) = 2 ^ 53"
  using binary64_scaled [of 1 53] by simp

lemma binary64_shift_1: "binary64 (1 + 2 ^ 53) = 2 ^ 53"
  using binary64_eval [of 53 "1 + 2 ^ 53"]
  by (simp add: round_half_even_def)

lemma rms_b64_of_shifted_pair: "calc_rms_b64 [2 ^ 53, 2 ^ 53] = Val 0"
proof -
  have a: "binary64 9007199254740992 = 9007199254740992"
    using binary64_scaled [of 1 53] by simp
  have b: "binary64 18014398509481984 = 18014398509481984"
    using binary64_scaled [of 1 54] by simp
  have m: "np_mean_b64 [2 ^ 53, 2 ^ 53] = Val (2 ^ 53)"
    by (simp add: np_mean_b64_def sum_b64_def a b)
  have ac: "remove_dc_bias_b64 [2 ^ 53, 2 ^ 53] = [0, 0]"
    using m by (simp add: remove_dc_bias_b64_def)
  show ?thesis
    unfolding calc_rms_b64_def Let_def ac sqrt_mean_square_b64_def
    by (simp add: np_mean_b64_2)
qed

lemma rms_b64_of_pair: "calc_rms_b64 [0, 1] = Val (1 / 2)"
proof -
  have one: "binary64 1 = 1" using binary64_scaled [of 1 0] by simp
  have half: "binary64 (1 / 2) = 1 / 2" using binary64_dyadic [of 1 1] by simp
  have mhalf: "binary64 (- (1 / 2)) = - (1 / 2)" using binary64_dyadic [of "- 1" 1] by simp
  have quarter: "binary64 (1 / 4) = 1 / 4" using binary64_dyadic [of 1 2] by simp
  have m: "np_mean_b64 [0, 1] = Val (1 / 2)"
    by (simp add: np_mean_b64_def sum_b64_def one half)
  have ac: "remove_dc_bias_b64 [0, 1] = [- (1 / 2), 1 / 2]"
    by (simp add: remove_dc_bias_b64_def m half mhalf)
  have sq: "map (\<lambda>x. binary64 (x ^ 2)) [- (1 / 2), 1 / 2 :: real] = [1 / 4, 1 / 4]"
    by (simp add: power2_eq_square quarter)
  have m2: "np_mean_b64 [1 / 4, 1 / 4] = Val (1 / 4)"
    by (simp add: np_mean_b64_def sum_b64_def quarter half)
  have rt: "sqrt (1 / 4) = 1 / 2"
    using real_sqrt_abs [of "1 / 2"] by (simp add: power2_eq_square)
  show ?thesis
    unfolding calc_rms_b64_def Let_def ac sqrt_mean_square_b64_def sq m2
    by (simp only: npfloat.case rt half)
qed

text \<open>
  C7, as the claim states it, fails: in binary64, adding \<open>k = 2 ^ 53\<close> to the samples of
  \<open>[0, 1]\<close> gives \<open>[2 ^ 53, 2 ^ 53]\<close>, because \<open>2 ^ 53 + 1\<close> is a tie that rounds to the
  even significand; the RMS of the shifted sequence is 0 and that of \<open>[0, 1]\<close> is 0.5.
\<close>

theorem calc_rms_b64_shift:
  "map (\<lambda>x. binary64 (x + 2 ^ 53)) [0, 1] = [2 ^ 53, 2 ^ 53]
   \<and> calc_rms_b64 (map (\<lambda>x. binary64 (x + 2 ^ 53)) [0, 1]) = Val 0
   \<and> calc_rms_b64 [0, 1] = Val (1 / 2)"
proof -
  have "map (\<lambda>x. binary64 (x + 2 ^ 53)) [0, 1] = [2 ^ 53, 2 ^ 53]"
    by (simp only: list.map binary64_shift_0 binary64_shift_1)
  then show ?thesis
    by (simp only: rms_b64_of_shifted_pair rms_b64_of_pair)
qed

subsection \<open>A constant sequence\<close>

lemma binary64_tenth: "binary64 (1 / 10) = 3602879701896397 / 2 ^ 55"
  using binary64_eval [of "- 4" "1 / 10"]
  by (simp add: round_half_even_def power_int_minus)

lemma rms_b64_of_three_tenths:
  "calc_rms_b64 [3602879701896397 / 2 ^ 55, 3602879701896397 / 2 ^ 55, 3602879701896397 / 2 ^ 55]
     = Val (1 / 2 ^ 56)"
proof -
  define x :: real where "x = 3602879701896397 / 2 ^ 55"
  have s1: "binary64 (0 + x) = x"
    using binary64_dyadic [of 3602879701896397 55] by (simp add: x_def)
  have s2: "binary64 (x + x) = 3602879701896397 / 2 ^ 54"
    using binary64_dyadic [of 3602879701896397 54] by (simp add: x_def)
  have s3: "binary64 (3602879701896397 / 2 ^ 54 + x) = 5404319552844596 / 2 ^ 54"
    using binary64_eval [of "- 2" "3602879701896397 / 2 ^ 54 + x"]
    by (simp add: x_def round_half_even_def power_int_minus)
  have dv: "binary64 (5404319552844596 / 2 ^ 54 / 3) = 7205759403792795 / 2 ^ 56"
    using binary64_eval [of "- 4" "5404319552844596 / 2 ^ 54 / 3"]
    by (simp add: round_half_even_def power_int_minus)
  have m: "np_mean_b64 [x, x, x] = Val (7205759403792795 / 2 ^ 56)"
    by (simp only: np_mean_b64_3 s1 s2 s3 dv)
  have d: "binary64 (x - 7205759403792795 / 2 ^ 56) = - (1 / 2 ^ 56)"
    using binary64_dyadic [of "- 1" 56] by (simp add: x_def)
  have ac: "remove_dc_bias_b64 [x, x, x] = [- (1 / 2 ^ 56), - (1 / 2 ^ 56), - (1 / 2 ^ 56)]"
    by (simp only: remove_dc_bias_b64_def m npfloat.case list.map d)
  have q: "binary64 ((- (1 / 2 ^ 56)) ^ 2) = 1 / 2 ^ 112"
    using binary64_dyadic [of 1 112] by (simp add: power2_eq_square)
  have t1: "binary64 (0 + 1 / 2 ^ 112) = 1 / 2 ^ 112"
    using binary64_dyadic [of 1 112] by simp
  have t2: "binary64 (1 / 2 ^ 112 + 1 / 2 ^ 112) = 1 / 2 ^ 111"
    using binary64_dyadic [of 1 111] by simp
  have t3: "binary64 (1 / 2 ^ 111 + 1 / 2 ^ 112) = 3 / 2 ^ 112"
    using binary64_dyadic [of 3 112] by simp
  have dv2: "binary64 (3 / 2 ^ 112 / 3) = 1 / 2 ^ 112"
    using binary64_dyadic [of 1 112] by simp
  have m2: "np_mean_b64 [1 / 2 ^ 112, 1 / 2 ^ 112, 1 / 2 ^ 112] = Val (1 / 2 ^ 112)"
    by (simp only: np_mean_b64_3 t1 t2 t3 dv2)
  have rt: "sqrt (1 / 2 ^ 112) = 1 / 2 ^ 56"
    using real_sqrt_abs [of "1 / 2 ^ 56"] by (simp add: power2_eq_square)
  have r: "binary64 (1 / 2 ^ 56) = 1 / 2 ^ 56"
    using binary64_dyadic [of 1 56] by simp
  show ?thesis
    unfolding x_def [symmetric] calc_rms_b64_def Let_def ac sqrt_mean_square_b64_def
    by (simp only: list.map q m2 npfloat.case rt r)
qed

text \<open>
  C8, as the claim states it, fails: in binary64 the mean of \<open>[0.1, 0.1, 0.1]\<close> is the
  number next above 0.1 (the sum rounds to 0.30000000000000004, and a third of it rounds
  up), every bias-removed sample is \<open>-(2 ^ -56)\<close>, and \<open>calc_rms\<close> returns \<open>2 ^ -56\<close>,
  about 1.39e-17, not 0.0.
\<close>

theorem calc_rms_b64_constant:
  "calc_rms_b64 [binary64 (1 / 10), binary64 (1 / 10), binary64 (1 / 10)] = Val (1 / 2 ^ 56)"
  by (simp only: binary64_tenth rms_b64_of_three_tenths)

lemma sum_b64_zeros: "sum_b64 (replicate n 0) = 0"
proof -
  have "foldl (\<lambda>acc x. binary64 (acc + x)) 0 (replicate n 0) = 0"
    by (induction n) simp_all
  then show ?thesis by (simp add: sum_b64_def)
qed

lemma calc_rms_b64_zeros: "0 < n \<Longrightarrow> calc_rms_b64 (replicate n 0) = Val 0"
  by (simp add: calc_rms_b64_def remove_dc_bias_b64_def sqrt_mean_square_b64_def
      np_mean_b64_def sum_b64_zeros map_replicate_const)

text \<open>
  C8, as it holds: in exact arithmetic, a non-empty sequence whose elements are all equal
  has RMS 0 and, at the default percentile, peak 0; in binary64 the RMS of a non-empty
  all-zero sequence is exactly 0.
\<close>

theorem constant_sequence_zero:
  assumes "c \<noteq> []" and "\<forall>y\<in>set c. y = x"
  shows "calc_rms c = Val 0 \<and> calc_peak c default_percentile = Inr 0
    \<and> calc_rms_b64 (replicate (length c) 0) = Val 0"
proof -
  have ac: "remove_dc_bias c = replicate (length c) 0"
    using assms by (rule remove_dc_bias_constant)
  have n: "0 < length c" using assms(1) by simp
  have "calc_rms c = Val 0"
    using n by (simp add: calc_rms_def ac sqrt_mean_square_zeros)
  moreover have "calc_peak c default_percentile = Inr 0"
  proof -
    have "\<exists>v. np_percentile (replicate (length c) 0) default_percentile = Inr v \<and> 0 \<le> v \<and> v \<le> 0"
      using n by (intro np_percentile_bounds) (simp_all add: default_percentile_def)
    then show ?thesis by (auto simp: calc_peak_def ac map_replicate_const)
  qed
  ultimately show ?thesis using n by (simp add: calc_rms_b64_zeros)
qed

theorem constant_sequence_zero_witness:
  "[5, 5, 5] \<noteq> ([] :: real list) \<and> set [5, 5, 5 :: real] = {5} \<and>
   calc_rms [5, 5, 5] = Val 0 \<and> calc_peak [5, 5, 5] default_percentile = Inr 0"
  using constant_sequence_zero [of "[5, 5, 5]" 5] by simp

end
